theory Spec2Isabelle
  imports Complex_Main "HOL-Library.Multiset"
begin

section \<open>Conventions\<close>

text \<open>
  The program \<open>audio2tones.py\<close> is modelled function by function. Python's floating-point
  numbers are modelled by the real numbers, Python's integers by \<open>int\<close> and \<open>nat\<close>. A call
  that raises returns \<open>Inl\<close> of the exception. Where the source would go on with a value that
  is not a real number (NumPy's \<open>nan\<close> and \<open>inf\<close>, which raise nothing), the model stops with
  \<open>Inl NonFinite\<close>: this is the edge of the model, not an exception of the program.

  The routines of NumPy and SciPy that the program calls are modelled after their
  documentation, each under the name it has in the source.
\<close>

datatype error = IndexError | ValueError | ZeroDivisionError | NonFinite

section \<open>Run-length encoder: \<open>compress_pwm_audio\<close>\<close>

text \<open>
  \<open>compress_pwm_audio(duration, frequency, modules)\<close>. The three arguments are indexable
  sequences. In \<open>main\<close> the \<open>duration\<close> argument is an array of 16-bit integers, so
  \<open>round(duration[0])\<close> is \<open>duration[0]\<close>; the products \<open>default_duration * compressed_chunks\<close>
  are modelled over unbounded integers. The elements of \<open>frequency\<close> and \<open>modules\<close> are only
  compared for equality, so their types are left open.
\<close>

record ('f, 'm) rle_state =
  last_freq :: 'f
  last_module :: 'm
  compressed_chunks :: int
  new_durations :: "int list"
  new_frequencies :: "'f list"
  new_modules :: "'m list"

type_synonym ('f, 'm) tone_event = "int \<times> 'f \<times> 'm"

text \<open>
  One iteration of \<open>for i, t in enumerate(duration[1:], 1)\<close>. Both \<open>frequency[i]\<close> and
  \<open>modules[i]\<close> are read on every path through the body (in the condition, or in the
  assignments of the branch), and an \<open>IndexError\<close> leaves the function at once.
\<close>

definition rle_body ::
  "int \<Rightarrow> 'f list \<Rightarrow> 'm list \<Rightarrow> nat \<Rightarrow> ('f, 'm) rle_state \<Rightarrow> error + ('f, 'm) rle_state" where
  "rle_body default_duration frequency modules i s =
     (let c = compressed_chunks s + 1 in
      if length frequency \<le> i \<or> length modules \<le> i then Inl IndexError
      else if frequency ! i \<noteq> last_freq s \<or> modules ! i \<noteq> last_module s then
        Inr (s\<lparr>last_freq := frequency ! i,
               last_module := modules ! i,
               new_modules := new_modules s @ [modules ! i],
               new_frequencies := new_frequencies s @ [frequency ! i],
               new_durations := new_durations s @ [default_duration * c],
               compressed_chunks := 0\<rparr>)
      else Inr (s\<lparr>compressed_chunks := c\<rparr>))"

text \<open>The loop: \<open>i\<close> is the current index, the list is what is left of \<open>duration[1:]\<close>.\<close>

fun rle_loop ::
  "int \<Rightarrow> 'f list \<Rightarrow> 'm list \<Rightarrow> nat \<Rightarrow> int list \<Rightarrow> ('f, 'm) rle_state
     \<Rightarrow> error + ('f, 'm) rle_state" where
  "rle_loop default_duration frequency modules i [] s = Inr s"
| "rle_loop default_duration frequency modules i (t # ts) s =
     (case rle_body default_duration frequency modules i s of
        Inl e \<Rightarrow> Inl e
      | Inr s' \<Rightarrow> rle_loop default_duration frequency modules (Suc i) ts s')"

definition compress_pwm_audio ::
  "int list \<Rightarrow> 'f list \<Rightarrow> 'm list \<Rightarrow> error + ('f, 'm) tone_event list" where
  "compress_pwm_audio duration frequency modules =
     (case duration of
        [] \<Rightarrow> Inl IndexError
      | default_duration # rest \<Rightarrow>
         (case frequency of
            [] \<Rightarrow> Inl IndexError
          | f0 # _ \<Rightarrow>
             (case modules of
                [] \<Rightarrow> Inl IndexError
              | m0 # _ \<Rightarrow>
                 (case rle_loop default_duration frequency modules 1 rest
                         \<lparr>last_freq = f0, last_module = m0, compressed_chunks = 0,
                          new_durations = [], new_frequencies = [f0], new_modules = [m0]\<rparr> of
                    Inl e \<Rightarrow> Inl e
                  | Inr s \<Rightarrow>
                      Inr (zip (new_durations s @ [default_duration * compressed_chunks s])
                               (zip (new_frequencies s) (new_modules s)))))))"

text \<open>
  The notions the properties of the encoder are stated with: the total duration of an event
  list, and its expansion into \<open>duration / baseDuration\<close> copies of each event's pair.
\<close>

definition total_duration :: "('f, 'm) tone_event list \<Rightarrow> int" where
  "total_duration evs = sum_list (map fst evs)"

definition expand_events :: "int \<Rightarrow> ('f, 'm) tone_event list \<Rightarrow> ('f \<times> 'm) list" where
  "expand_events base evs = concat (map (\<lambda>(d, p). replicate (nat (d div base)) p) evs)"

text \<open>The loop invariant, before the iteration for index \<open>i\<close>.\<close>

definition rle_inv ::
  "int \<Rightarrow> 'f list \<Rightarrow> 'm list \<Rightarrow> nat \<Rightarrow> ('f, 'm) rle_state \<Rightarrow> bool" where
  "rle_inv dd frequency modules i s \<longleftrightarrow>
     1 \<le> i \<and>
     last_freq s = frequency ! (i - 1) \<and> last_module s = modules ! (i - 1) \<and>
     0 \<le> compressed_chunks s \<and>
     length (new_frequencies s) = Suc (length (new_durations s)) \<and>
     length (new_modules s) = Suc (length (new_durations s)) \<and>
     last (new_frequencies s) = last_freq s \<and> last (new_modules s) = last_module s \<and>
     sum_list (new_durations s) + dd * compressed_chunks s = dd * (int i - 1) \<and>
     (2 \<le> i \<and> (frequency ! (i - 1) \<noteq> frequency ! (i - 2) \<or> modules ! (i - 1) \<noteq> modules ! (i - 2))
        \<longrightarrow> compressed_chunks s = 0) \<and>
     (\<forall>d \<in> set (new_durations s). \<exists>c\<ge>1. d = dd * c) \<and>
     (new_durations s = [] \<longrightarrow> compressed_chunks s = int i - 1) \<and>
     (dd \<noteq> 0 \<longrightarrow>
        expand_events dd (zip (new_durations s) (zip (new_frequencies s) (new_modules s)))
          @ replicate (nat (compressed_chunks s)) (last_freq s, last_module s)
        = take (i - 1) (zip frequency modules))"


section \<open>The hardware table \<open>mcus\<close>\<close>

record mcu =
  available_freqs :: "real list"
  pwm_duty_cycle_max_value :: int
  playback_sampling_rate :: int

definition ATmega328P :: mcu where
  "ATmega328P =
     \<lparr>available_freqs = map (\<lambda>x. 16000000 / (x * 256)) [8, 32, 64, 128, 256, 1024],
      pwm_duty_cycle_max_value = 255 - 1,
      playback_sampling_rate = 10000\<rparr>"

section \<open>Python and NumPy primitives\<close>

text \<open>Python's \<open>round\<close> of a float with one argument: to the nearest integer, ties to even.\<close>

definition py_round :: "real \<Rightarrow> int" where
  "py_round x =
     (let f = \<lfloor>x\<rfloor> in
      if x - of_int f < 1 / 2 then f
      else if 1 / 2 < x - of_int f then f + 1
      else if even f then f else f + 1)"

text \<open>
  \<open>ndarray.astype(np.int16)\<close> on a float: the fraction is dropped, and the integer is read
  as a signed 16-bit value.
\<close>

definition astype_int16 :: "real \<Rightarrow> int" where
  "astype_int16 v =
     (let t = (if 0 \<le> v then \<lfloor>v\<rfloor> else \<lceil>v\<rceil>) in (t + 32768) mod 65536 - 32768)"

text \<open>
  \<open>np.array_split(ary, n)\<close> for a one-dimensional array and an integer \<open>n\<close>: the first
  \<open>len(ary) % n\<close> sections have \<open>len(ary) // n + 1\<close> elements, the others \<open>len(ary) // n\<close>.
\<close>

fun split_sections :: "nat list \<Rightarrow> 'a list \<Rightarrow> 'a list list" where
  "split_sections [] ary = []"
| "split_sections (k # ks) ary = take k ary # split_sections ks (drop k ary)"

definition section_sizes :: "nat \<Rightarrow> nat \<Rightarrow> nat list" where
  "section_sizes Ntotal Nsections =
     replicate (Ntotal mod Nsections) (Ntotal div Nsections + 1)
       @ replicate (Nsections - Ntotal mod Nsections) (Ntotal div Nsections)"

definition array_split :: "'a list \<Rightarrow> int \<Rightarrow> error + 'a list list" where
  "array_split ary n =
     (if n \<le> 0 then Inl ValueError
      else Inr (split_sections (section_sizes (length ary) (nat n)) ary))"

text \<open>
  \<open>np.amax(samples, axis=0)\<close> on a two-dimensional array (one row per channel), then
  \<open>np.maximum\<close> with an array of zeros: the expression of \<open>main\<close> that merges the channels.
  A reduction over no rows raises \<open>ValueError\<close>.
\<close>

definition amax_axis0 :: "real list list \<Rightarrow> real list" where
  "amax_axis0 samples =
     map (\<lambda>i. Max (set (map (\<lambda>channel. channel ! i) samples))) [0..<length (hd samples)]"

definition merge_channels :: "real list list \<Rightarrow> error + real list" where
  "merge_channels samples =
     (if samples = [] then Inl ValueError
      else Inr (map2 max (amax_axis0 samples) (replicate (length (hd samples)) 0)))"

text \<open>
  \<open>scipy.fft.fft\<close> of a real sequence, the discrete Fourier transform; it raises
  \<open>ValueError\<close> on an empty input.
\<close>

definition fft :: "real list \<Rightarrow> error + complex list" where
  "fft x =
     (if x = [] then Inl ValueError
      else Inr (map (\<lambda>k. sum_list (map (\<lambda>n. complex_of_real (x ! n)
                              * cis (- (2 * pi * real k * real n / real (length x))))
                            [0..<length x]))
                [0..<length x]))"

text \<open>
  \<open>fftfreq(n, d)\<close>: \<open>val = 1.0 / (n * d)\<close>, then the integers \<open>0, \<dots>, (n - 1) // 2\<close> followed
  by \<open>-(n // 2), \<dots>, -1\<close>, each times \<open>val\<close>.
\<close>

definition fftfreq :: "int \<Rightarrow> real \<Rightarrow> error + real list" where
  "fftfreq n d =
     (if of_int n * d = 0 then Inl ZeroDivisionError
      else if n < 0 then Inl ValueError
      else Inr (map (\<lambda>i. of_int i * (1 / (of_int n * d)))
                  ([0..(n - 1) div 2] @ [- (n div 2)..- 1])))"

text \<open>\<open>np.argmax\<close>: the index of the first occurrence of the maximum.\<close>

definition argmax :: "real list \<Rightarrow> nat" where
  "argmax xs = length (takeWhile (\<lambda>x. x \<noteq> Max (set xs)) xs)"

text \<open>
  \<open>np.geomspace(start, stop, num)\<close>: it raises \<open>ValueError\<close> when an end point is zero; for
  end points of one sign it returns \<open>10 ** linspace(log10 start, log10 stop, num)\<close>, computed
  on the absolute values and negated again when both are negative; for end points of opposite
  signs the logarithm is \<open>nan\<close>.
\<close>

definition linspace :: "real \<Rightarrow> real \<Rightarrow> nat \<Rightarrow> real list" where
  "linspace start stop num = map (\<lambda>i. start + real i * ((stop - start) / real (num - 1))) [0..<num]"

definition geomspace :: "real \<Rightarrow> real \<Rightarrow> nat \<Rightarrow> error + real list" where
  "geomspace start stop num =
     (if start = 0 \<or> stop = 0 then Inl ValueError
      else if (start < 0) \<noteq> (stop < 0) then Inl NonFinite
      else if start < 0 then
        Inr (map (\<lambda>y. - (10 powr y)) (linspace (log 10 (- start)) (log 10 (- stop)) num))
      else Inr (map (\<lambda>y. 10 powr y) (linspace (log 10 start) (log 10 stop) num)))"

text \<open>
  \<open>np.digitize(x, bins, right)\<close>: \<open>ValueError\<close> when \<open>bins\<close> is neither increasing nor
  decreasing; otherwise a position from \<open>np.searchsorted\<close>, in the reversed bins and counted
  from the end when they decrease. \<open>searchsorted\<close> on a sorted array gives the number of
  elements below the value (side \<open>left\<close>) or not above it (side \<open>right\<close>).
\<close>

definition monotonicity :: "'a::linorder list \<Rightarrow> int" where
  "monotonicity bins = (if sorted bins then 1 else if sorted (rev bins) then - 1 else 0)"

datatype side = Left | Right

definition searchsorted :: "'a::linorder list \<Rightarrow> 'a \<Rightarrow> side \<Rightarrow> nat" where
  "searchsorted a v sd =
     (case sd of
        Left \<Rightarrow> length (takeWhile (\<lambda>e. e < v) a)
      | Right \<Rightarrow> length (takeWhile (\<lambda>e. e \<le> v) a))"

definition digitize :: "'a::linorder list \<Rightarrow> 'a list \<Rightarrow> bool \<Rightarrow> error + nat list" where
  "digitize x bins right =
     (let mono = monotonicity bins;
          sd = (if right then Left else Right)
      in if mono = 0 then Inl ValueError
         else if mono = - 1 then
           Inr (map (\<lambda>v. length bins - searchsorted (rev bins) v sd) x)
         else Inr (map (\<lambda>v. searchsorted bins v sd) x))"

text \<open>
  \<open>np.interp(x, (x0, x1), (y0, y1))\<close> at one point, with two sample points. The cases are
  those of NumPy's routine, in its order: right of the last sample point, left of the first,
  on the last sample point, on the first, and only then the line through the two.
\<close>

definition interp :: "real \<Rightarrow> real \<times> real \<Rightarrow> real \<times> real \<Rightarrow> real" where
  "interp x xp fp =
     (case (xp, fp) of ((x0, x1), (y0, y1)) \<Rightarrow>
        if x1 < x then y1
        else if x < x0 then y0
        else if x1 \<le> x then y1
        else if x0 = x then y0
        else (y1 - y0) / (x1 - x0) * (x - x0) + y0)"

section \<open>Spectral analysis: \<open>get_dominant_freq_and_module\<close>\<close>

definition get_dominant_freq_and_module ::
  "real list \<Rightarrow> int \<Rightarrow> real \<Rightarrow> error + real \<times> real" where
  "get_dominant_freq_and_module window_chunk sampling_rate fourier_window_size =
     (case fft window_chunk of
        Inl e \<Rightarrow> Inl e
      | Inr fourier_data \<Rightarrow>
          if sampling_rate = 0 then Inl ZeroDivisionError
          else
            (case fftfreq (py_round fourier_window_size) (1 / of_int sampling_rate) of
               Inl e \<Rightarrow> Inl e
             | Inr freqs \<Rightarrow>
                 let modules = map cmod fourier_data;
                     max_module = Max (set modules)
                 in if length freqs \<le> argmax modules then Inl IndexError
                    else Inr (freqs ! argmax modules, max_module)))"


section \<open>The pipeline: \<open>main\<close>\<close>

text \<open>
  The loop of \<open>main\<close> over the chunks: one call of \<open>get_dominant_freq_and_module\<close> per chunk,
  in order, left at the first exception.
\<close>

fun analyse_windows :: "real list list \<Rightarrow> int \<Rightarrow> real \<Rightarrow> error + (real \<times> real) list" where
  "analyse_windows [] sampling_rate fourier_window_size = Inr []"
| "analyse_windows (chunk # chunks) sampling_rate fourier_window_size =
     (case get_dominant_freq_and_module chunk sampling_rate fourier_window_size of
        Inl e \<Rightarrow> Inl e
      | Inr frame \<Rightarrow>
          (case analyse_windows chunks sampling_rate fourier_window_size of
             Inl e \<Rightarrow> Inl e
           | Inr frames \<Rightarrow> Inr (frame # frames)))"

definition resampled_data_size :: "mcu \<Rightarrow> real list list \<Rightarrow> int \<Rightarrow> int" where
  "resampled_data_size m samples sampling_rate =
     py_round (real (length (hd samples)) / of_int sampling_rate
               * of_int (playback_sampling_rate m))"

definition default_duration_of :: "mcu \<Rightarrow> int" where
  "default_duration_of m = astype_int16 (1 / of_int (playback_sampling_rate m) * 10000000)"

text \<open>
  \<open>main\<close> from the loaded file to the three arrays handed to the later stages. The arrays
  \<open>frequencies\<close> and \<open>modules\<close> are made by \<open>np.empty(resampled_data_size + 1)\<close>, and the loop
  writes their first \<open>resampled_data_size\<close> slots only; \<open>np.empty\<close> does not initialise its
  array, so what the last slot holds is not fixed by the program. The model takes the
  content of the two last slots as the arguments \<open>uninit_frequency\<close> and \<open>uninit_module\<close>.
\<close>

definition main_analysis ::
  "mcu \<Rightarrow> real list list \<Rightarrow> int \<Rightarrow> real \<Rightarrow> real
     \<Rightarrow> error + int list \<times> real list \<times> real list" where
  "main_analysis m samples sampling_rate uninit_frequency uninit_module =
     (if samples = [] then Inl IndexError
      else if sampling_rate = 0 then Inl ZeroDivisionError
      else
        (case merge_channels samples of
           Inl e \<Rightarrow> Inl e
         | Inr merged_channels \<Rightarrow>
             if playback_sampling_rate m = 0 then Inl ZeroDivisionError
             else
               let n = resampled_data_size m samples sampling_rate;
                   fourier_window_size = of_int sampling_rate / of_int (playback_sampling_rate m)
               in if n + 1 < 0 then Inl ValueError
                  else
                    (case array_split merged_channels n of
                       Inl e \<Rightarrow> Inl e
                     | Inr chunks \<Rightarrow>
                         (case analyse_windows chunks sampling_rate fourier_window_size of
                            Inl e \<Rightarrow> Inl e
                          | Inr frames \<Rightarrow>
                              Inr (replicate (nat (n + 1)) (default_duration_of m),
                                   map fst frames @ [uninit_frequency],
                                   map snd frames @ [uninit_module])))))"

text \<open>Lines 151 to 157: the frequency quantizer.\<close>

definition quantize_frequencies :: "mcu \<Rightarrow> real list \<Rightarrow> error + nat list" where
  "quantize_frequencies m frequencies =
     (if frequencies = [] then Inl ValueError
      else
        (case geomspace (Min (set frequencies) + 1) (Max (set frequencies))
                (length (available_freqs m)) of
           Inl e \<Rightarrow> Inl e
         | Inr bins \<Rightarrow>
             if bins = [] then Inl IndexError
             else digitize frequencies (rev (bins[0 := 0])) False))"

text \<open>
  Lines 160 to 172: the loudness normalizer. \<open>np.log\<close> of a number that is not positive is
  \<open>-inf\<close> or \<open>nan\<close>.
\<close>

definition normalize_modules :: "mcu \<Rightarrow> bool \<Rightarrow> real list \<Rightarrow> error + int list" where
  "normalize_modules m flatten_volume modules =
     (if \<exists>v \<in> set modules. v + 1 \<le> 0 then Inl NonFinite
      else if modules = [] then Inl ValueError
      else
        let compressed_range_modules = map (\<lambda>v. ln (v + 1)) modules;
            normalized_modules =
              map (\<lambda>c. astype_int16
                         (interp c (0, Max (set compressed_range_modules))
                                   (0, of_int (pwm_duty_cycle_max_value m))))
                  compressed_range_modules
        in if flatten_volume then
             (case digitize normalized_modules [0, 255] True of
                Inl e \<Rightarrow> Inl e
              | Inr ks \<Rightarrow> Inr (map (\<lambda>k. int k * 255) ks))
           else Inr normalized_modules)"

definition main ::
  "mcu \<Rightarrow> bool \<Rightarrow> real list list \<Rightarrow> int \<Rightarrow> real \<Rightarrow> real
     \<Rightarrow> error + (nat, int) tone_event list" where
  "main m flatten_volume samples sampling_rate uninit_frequency uninit_module =
     (case main_analysis m samples sampling_rate uninit_frequency uninit_module of
        Inl e \<Rightarrow> Inl e
      | Inr (durations, frequencies, modules) \<Rightarrow>
          (case quantize_frequencies m frequencies of
             Inl e \<Rightarrow> Inl e
           | Inr freq_indexes \<Rightarrow>
               (case normalize_modules m flatten_volume modules of
                  Inl e \<Rightarrow> Inl e
                | Inr normalized_modules \<Rightarrow>
                    compress_pwm_audio durations freq_indexes normalized_modules)))"


section \<open>Properties of the run-length encoder\<close>

subsection \<open>The loop invariant\<close>

lemma expand_events_append:
  "expand_events b (xs @ ys) = expand_events b xs @ expand_events b ys"
  by (simp add: expand_events_def)

lemma zip_longer_right:
  "length xs = length ys \<Longrightarrow> zip xs (ys @ zs) = zip xs ys"
  by (induction xs ys rule: list_induct2) simp_all

lemma zip3_final:
  assumes "length fs = Suc (length ds)" "length ms = Suc (length ds)"
  shows "zip (ds @ [d]) (zip fs ms) = zip ds (zip fs ms) @ [(d, last fs, last ms)]"
proof -
  from assms obtain fs' f' where fs: "fs = fs' @ [f']" "length fs' = length ds"
    by (metis length_Suc_conv_rev)
  from assms obtain ms' m' where ms: "ms = ms' @ [m']" "length ms' = length ds"
    by (metis length_Suc_conv_rev)
  have len: "length ds = length (zip fs' ms')" using fs ms by simp
  have z: "zip fs ms = zip fs' ms' @ [(f', m')]" using fs ms by simp
  have "zip ds (zip fs' ms' @ [(f', m')]) = zip ds (zip fs' ms')"
    using len by (rule zip_longer_right)
  moreover have "zip (ds @ [d]) (zip fs' ms' @ [(f', m')]) = zip ds (zip fs' ms') @ [(d, f', m')]"
    using len by simp
  ultimately show ?thesis using fs ms z by simp
qed

lemma zip3_snoc:
  assumes "length fs = Suc (length ds)" "length ms = Suc (length ds)"
  shows "zip (ds @ [d]) (zip (fs @ [f]) (ms @ [m])) = zip ds (zip fs ms) @ [(d, last fs, last ms)]"
proof -
  have "zip (fs @ [f]) (ms @ [m]) = zip fs ms @ [(f, m)]" using assms by simp
  moreover have "length (ds @ [d]) = length (zip fs ms)" using assms by simp
  ultimately have "zip (ds @ [d]) (zip (fs @ [f]) (ms @ [m])) = zip (ds @ [d]) (zip fs ms)"
    by (simp only: zip_longer_right)
  then show ?thesis using zip3_final [OF assms] by simp
qed

lemma take_zip_step:
  assumes "1 \<le> i" "i < length fs" "i < length ms"
  shows "take (i - 1) (zip fs ms) @ [(fs ! (i - 1), ms ! (i - 1))] = take i (zip fs ms)"
proof -
  obtain j where j: "i = Suc j" using assms(1) by (cases i) simp_all
  have "j < length (zip fs ms)" using assms j by simp
  then have "take (Suc j) (zip fs ms) = take j (zip fs ms) @ [zip fs ms ! j]"
    by (rule take_Suc_conv_app_nth)
  moreover have "zip fs ms ! j = (fs ! j, ms ! j)" using assms j by simp
  ultimately show ?thesis using j by simp
qed

lemma replicate_nat_Suc:
  "0 \<le> c \<Longrightarrow> replicate (nat (c + 1)) p = replicate (nat c) p @ [p]"
  by (simp add: nat_add_distrib replicate_append_same)

lemma rle_body_inv:
  assumes inv: "rle_inv dd fs ms i s" and i: "i < length fs" "i < length ms"
  shows "\<exists>s'. rle_body dd fs ms i s = Inr s' \<and> rle_inv dd fs ms (Suc i) s'"
proof (cases "fs ! i \<noteq> last_freq s \<or> ms ! i \<noteq> last_module s")
  case True
  let ?c = "compressed_chunks s + 1"
  let ?s' = "s\<lparr>last_freq := fs ! i, last_module := ms ! i,
               new_modules := new_modules s @ [ms ! i],
               new_frequencies := new_frequencies s @ [fs ! i],
               new_durations := new_durations s @ [dd * ?c],
               compressed_chunks := 0\<rparr>"
  have body: "rle_body dd fs ms i s = Inr ?s'"
    using True i by (simp add: rle_body_def Let_def)
  have c0: "0 \<le> compressed_chunks s" and i1: "1 \<le> i"
    and lf: "length (new_frequencies s) = Suc (length (new_durations s))"
    and lm: "length (new_modules s) = Suc (length (new_durations s))"
    and lastf: "last (new_frequencies s) = fs ! (i - 1)"
    and lastm: "last (new_modules s) = ms ! (i - 1)"
    and lfq: "last_freq s = fs ! (i - 1)" and lmq: "last_module s = ms ! (i - 1)"
    and sm: "sum_list (new_durations s) + dd * compressed_chunks s = dd * (int i - 1)"
    using inv by (simp_all add: rle_inv_def)
  have ex0: "dd \<noteq> 0 \<Longrightarrow>
        expand_events dd (zip (new_durations s) (zip (new_frequencies s) (new_modules s)))
          @ replicate (nat (compressed_chunks s)) (last_freq s, last_module s)
        = take (i - 1) (zip fs ms)"
    using inv unfolding rle_inv_def by blast
  have ex: "dd \<noteq> 0 \<Longrightarrow>
        expand_events dd (zip (new_durations s) (zip (new_frequencies s) (new_modules s)))
          @ replicate (nat (compressed_chunks s)) (fs ! (i - 1), ms ! (i - 1))
        = take (i - 1) (zip fs ms)"
    using ex0 lfq lmq by simp
  have sum': "sum_list (new_durations ?s') + dd * compressed_chunks ?s' = dd * (int (Suc i) - 1)"
    using sm by (simp add: algebra_simps)
  have exp': "expand_events dd (zip (new_durations ?s') (zip (new_frequencies ?s') (new_modules ?s')))
          @ replicate (nat (compressed_chunks ?s')) (last_freq ?s', last_module ?s')
        = take (Suc i - 1) (zip fs ms)" if dd: "dd \<noteq> 0"
  proof -
    have "zip (new_durations ?s') (zip (new_frequencies ?s') (new_modules ?s'))
        = zip (new_durations s) (zip (new_frequencies s) (new_modules s))
          @ [(dd * ?c, fs ! (i - 1), ms ! (i - 1))]"
      using zip3_snoc [OF lf lm] lastf lastm by simp
    moreover have "expand_events dd [(dd * ?c, fs ! (i - 1), ms ! (i - 1))]
        = replicate (nat ?c) (fs ! (i - 1), ms ! (i - 1))"
      using dd by (simp add: expand_events_def)
    ultimately have "expand_events dd (zip (new_durations ?s') (zip (new_frequencies ?s') (new_modules ?s')))
        = (expand_events dd (zip (new_durations s) (zip (new_frequencies s) (new_modules s)))
           @ replicate (nat (compressed_chunks s)) (fs ! (i - 1), ms ! (i - 1)))
          @ [(fs ! (i - 1), ms ! (i - 1))]"
      using replicate_nat_Suc [OF c0] by (simp add: expand_events_append)
    then have "expand_events dd (zip (new_durations ?s') (zip (new_frequencies ?s') (new_modules ?s')))
        = take i (zip fs ms)"
      unfolding ex [OF dd] take_zip_step [OF i1 i] .
    then show ?thesis by simp
  qed
  have pos: "\<forall>d \<in> set (new_durations s). \<exists>c\<ge>1. d = dd * c"
    using inv unfolding rle_inv_def by blast
  have "\<exists>c\<ge>1. dd * ?c = dd * c" using c0 by (intro exI [of _ ?c]) simp
  with pos have pos': "\<forall>d \<in> set (new_durations ?s'). \<exists>c\<ge>1. d = dd * c"
    by auto
  have "rle_inv dd fs ms (Suc i) ?s'"
    unfolding rle_inv_def using lf lm sum' exp' pos' by simp
  with body show ?thesis by blast
next
  case False
  let ?s' = "s\<lparr>compressed_chunks := compressed_chunks s + 1\<rparr>"
  have body: "rle_body dd fs ms i s = Inr ?s'"
    using False i by (simp add: rle_body_def Let_def)
  have c0: "0 \<le> compressed_chunks s" and i1: "1 \<le> i"
    and lfq: "last_freq s = fs ! (i - 1)" and lmq: "last_module s = ms ! (i - 1)"
    and sm: "sum_list (new_durations s) + dd * compressed_chunks s = dd * (int i - 1)"
    using inv by (simp_all add: rle_inv_def)
  have same: "fs ! i = fs ! (i - 1)" "ms ! i = ms ! (i - 1)"
    using False lfq lmq by simp_all
  have ex0: "dd \<noteq> 0 \<Longrightarrow>
        expand_events dd (zip (new_durations s) (zip (new_frequencies s) (new_modules s)))
          @ replicate (nat (compressed_chunks s)) (last_freq s, last_module s)
        = take (i - 1) (zip fs ms)"
    using inv unfolding rle_inv_def by blast
  have ex: "dd \<noteq> 0 \<Longrightarrow>
        expand_events dd (zip (new_durations s) (zip (new_frequencies s) (new_modules s)))
          @ replicate (nat (compressed_chunks s)) (fs ! (i - 1), ms ! (i - 1))
        = take (i - 1) (zip fs ms)"
    using ex0 lfq lmq by simp
  have sum': "sum_list (new_durations ?s') + dd * compressed_chunks ?s' = dd * (int (Suc i) - 1)"
    using sm by (simp add: algebra_simps)
  have exp': "expand_events dd (zip (new_durations ?s') (zip (new_frequencies ?s') (new_modules ?s')))
          @ replicate (nat (compressed_chunks ?s')) (last_freq ?s', last_module ?s')
        = take (Suc i - 1) (zip fs ms)" if dd: "dd \<noteq> 0"
  proof -
    have "expand_events dd (zip (new_durations s) (zip (new_frequencies s) (new_modules s)))
          @ replicate (nat (compressed_chunks s + 1)) (fs ! (i - 1), ms ! (i - 1))
        = (expand_events dd (zip (new_durations s) (zip (new_frequencies s) (new_modules s)))
          @ replicate (nat (compressed_chunks s)) (fs ! (i - 1), ms ! (i - 1)))
          @ [(fs ! (i - 1), ms ! (i - 1))]"
      using replicate_nat_Suc [OF c0] by simp
    then have "expand_events dd (zip (new_durations s) (zip (new_frequencies s) (new_modules s)))
          @ replicate (nat (compressed_chunks s + 1)) (fs ! (i - 1), ms ! (i - 1))
        = take i (zip fs ms)"
      unfolding ex [OF dd] take_zip_step [OF i1 i] .
    then show ?thesis using lfq lmq by simp
  qed
  have "rle_inv dd fs ms (Suc i) ?s'"
    unfolding rle_inv_def using inv same sum' exp' c0 by (simp add: rle_inv_def)
  with body show ?thesis by blast
qed


lemma rle_loop_inv:
  assumes "rle_inv dd fs ms i s" "i + length ts \<le> length fs" "i + length ts \<le> length ms"
  shows "\<exists>s'. rle_loop dd fs ms i ts s = Inr s' \<and> rle_inv dd fs ms (i + length ts) s'"
  using assms
proof (induction ts arbitrary: i s)
  case Nil
  then show ?case by simp
next
  case (Cons t ts)
  from Cons.prems have i: "i < length fs" "i < length ms" by simp_all
  from rle_body_inv [OF Cons.prems(1) i] obtain s1
    where s1: "rle_body dd fs ms i s = Inr s1" "rle_inv dd fs ms (Suc i) s1" by blast
  from Cons.prems have "Suc i + length ts \<le> length fs" "Suc i + length ts \<le> length ms"
    by simp_all
  from Cons.IH [OF s1(2) this] s1(1) show ?case by simp
qed

lemma rle_inv_init:
  "rle_inv dd (f0 # fs) (m0 # ms) 1
     \<lparr>last_freq = f0, last_module = m0, compressed_chunks = 0,
      new_durations = [], new_frequencies = [f0], new_modules = [m0]\<rparr>"
  by (simp add: rle_inv_def expand_events_def)

text \<open>What a call returns, in terms of the final loop state.\<close>

lemma compress_pwm_audio_state:
  assumes "duration \<noteq> []" "length duration \<le> length frequency"
    "length duration \<le> length modules"
  shows "\<exists>s. rle_inv (hd duration) frequency modules (length duration) s \<and>
     compress_pwm_audio duration frequency modules =
       Inr (zip (new_durations s) (zip (new_frequencies s) (new_modules s))
            @ [(hd duration * compressed_chunks s, last_freq s, last_module s)])"
proof -
  from assms obtain dd rest where d: "duration = dd # rest" by (cases duration) auto
  from assms d obtain f0 fs where f: "frequency = f0 # fs" by (cases frequency) auto
  from assms d obtain m0 ms where m: "modules = m0 # ms" by (cases modules) auto
  let ?s0 = "\<lparr>last_freq = f0, last_module = m0, compressed_chunks = 0,
      new_durations = [], new_frequencies = [f0], new_modules = [m0]\<rparr>"
  have "1 + length rest \<le> length frequency" "1 + length rest \<le> length modules"
    using assms d by simp_all
  from rle_loop_inv [OF rle_inv_init [of dd f0 fs m0 ms, folded f m] this]
  obtain s where s: "rle_loop dd frequency modules 1 rest ?s0 = Inr s"
    "rle_inv dd frequency modules (1 + length rest) s" by blast
  have lens: "length (new_frequencies s) = Suc (length (new_durations s))"
    "length (new_modules s) = Suc (length (new_durations s))"
    and lasts: "last (new_frequencies s) = last_freq s" "last (new_modules s) = last_module s"
    using s(2) by (simp_all add: rle_inv_def)
  have "compress_pwm_audio duration frequency modules =
      Inr (zip (new_durations s @ [dd * compressed_chunks s])
               (zip (new_frequencies s) (new_modules s)))"
    using s(1) unfolding compress_pwm_audio_def d by (simp add: f m)
  then show ?thesis using zip3_final [OF lens] lasts s(2) d by auto
qed

lemma compress_expand_take:
  assumes "duration \<noteq> []" "length duration \<le> length frequency"
    "length duration \<le> length modules" "hd duration \<noteq> 0"
  shows "\<exists>evs. compress_pwm_audio duration frequency modules = Inr evs \<and>
     expand_events (hd duration) evs = take (length duration - 1) (zip frequency modules)"
proof -
  from compress_pwm_audio_state [OF assms(1-3)] obtain s where
    inv: "rle_inv (hd duration) frequency modules (length duration) s" and
    res: "compress_pwm_audio duration frequency modules =
       Inr (zip (new_durations s) (zip (new_frequencies s) (new_modules s))
            @ [(hd duration * compressed_chunks s, last_freq s, last_module s)])" by blast
  have "expand_events (hd duration) [(hd duration * compressed_chunks s, last_freq s, last_module s)]
      = replicate (nat (compressed_chunks s)) (last_freq s, last_module s)"
    using assms(4) by (simp add: expand_events_def)
  then have "expand_events (hd duration)
       (zip (new_durations s) (zip (new_frequencies s) (new_modules s))
            @ [(hd duration * compressed_chunks s, last_freq s, last_module s)])
     = expand_events (hd duration) (zip (new_durations s) (zip (new_frequencies s) (new_modules s)))
        @ replicate (nat (compressed_chunks s)) (last_freq s, last_module s)"
    by (simp add: expand_events_append)
  also have "\<dots> = take (length duration - 1) (zip frequency modules)"
    using inv assms(4) unfolding rle_inv_def by blast
  finally show ?thesis using res by blast
qed

lemma compress_first_positive:
  assumes "2 \<le> length duration" "length duration \<le> length frequency"
    "length duration \<le> length modules" "0 < hd duration"
  shows "\<exists>evs. compress_pwm_audio duration frequency modules = Inr evs \<and> evs \<noteq> [] \<and>
     0 < fst (hd evs)"
proof -
  have d: "duration \<noteq> []" using assms(1) by auto
  from compress_pwm_audio_state [OF d assms(2,3)] obtain s where
    inv: "rle_inv (hd duration) frequency modules (length duration) s" and
    res: "compress_pwm_audio duration frequency modules =
       Inr (zip (new_durations s) (zip (new_frequencies s) (new_modules s))
            @ [(hd duration * compressed_chunks s, last_freq s, last_module s)])" by blast
  let ?evs = "zip (new_durations s) (zip (new_frequencies s) (new_modules s))
            @ [(hd duration * compressed_chunks s, last_freq s, last_module s)]"
  have "0 < fst (hd ?evs)"
  proof (cases "new_durations s")
    case Nil
    then have "compressed_chunks s = int (length duration) - 1"
      using inv unfolding rle_inv_def by blast
    then have "0 < compressed_chunks s" using assms(1) by simp
    then show ?thesis using Nil assms(4) by simp
  next
    case (Cons d ds)
    have lens: "length (new_frequencies s) = Suc (length (new_durations s))"
      "length (new_modules s) = Suc (length (new_durations s))"
      using inv by (simp_all add: rle_inv_def)
    then obtain f fs' m ms' where fm: "new_frequencies s = f # fs'" "new_modules s = m # ms'"
      by (metis length_Suc_conv)
    have "\<exists>c\<ge>1. d = hd duration * c"
      using inv Cons unfolding rle_inv_def by simp
    then have "0 < d" using assms(4) by auto
    then show ?thesis using Cons fm by simp
  qed
  then show ?thesis using res by simp
qed

subsection \<open>Total duration\<close>

text \<open>
  Claim C1, as stated: for every input sequence of windows the durations of the events sum
  to \<open>N \<times> baseDuration\<close>, \<open>N\<close> the number of windows compressed. The encoder does not do
  that for the sequences it is given: two entries give events of total duration \<open>1000\<close>,
  not \<open>2000\<close>.
\<close>

theorem compress_total_duration_counterexample:
  "compress_pwm_audio [1000, 1000] [1::nat, 2] [5::int, 5] = Inr [(1000, 1, 5), (0, 2, 5)]
   \<and> total_duration [(1000, 1::nat, 5::int), (0, 2, 5)] \<noteq> 2 * 1000"
  by (simp add: compress_pwm_audio_def rle_body_def total_duration_def)

text \<open>
  Claim C1, amended: on sequences of \<open>n \<ge> 1\<close> entries the encoder returns, and the
  durations of its events sum to \<open>(n - 1) \<times> baseDuration\<close>: the last entry closes the last
  run and is not counted. \<open>main\<close> passes \<open>N + 1\<close> entries for \<open>N\<close> windows, which makes the
  total \<open>N \<times> baseDuration\<close> there.
\<close>

theorem compress_total_duration:
  assumes "duration \<noteq> []" "length duration \<le> length frequency"
    "length duration \<le> length modules"
  shows "\<exists>evs. compress_pwm_audio duration frequency modules = Inr evs \<and>
     total_duration evs = hd duration * (int (length duration) - 1)"
proof -
  from compress_pwm_audio_state [OF assms] obtain s where
    inv: "rle_inv (hd duration) frequency modules (length duration) s" and
    res: "compress_pwm_audio duration frequency modules =
       Inr (zip (new_durations s) (zip (new_frequencies s) (new_modules s))
            @ [(hd duration * compressed_chunks s, last_freq s, last_module s)])" by blast
  have lens: "length (new_durations s) \<le> length (zip (new_frequencies s) (new_modules s))"
    using inv by (simp add: rle_inv_def)
  have "map fst (zip (new_durations s) (zip (new_frequencies s) (new_modules s))) = new_durations s"
    using lens by (simp add: map_fst_zip_take)
  then have "total_duration (zip (new_durations s) (zip (new_frequencies s) (new_modules s))
            @ [(hd duration * compressed_chunks s, last_freq s, last_module s)])
      = sum_list (new_durations s) + hd duration * compressed_chunks s"
    by (simp add: total_duration_def)
  also have "\<dots> = hd duration * (int (length duration) - 1)"
    using inv by (simp add: rle_inv_def)
  finally show ?thesis using res by blast
qed

theorem compress_total_duration_witness:
  "\<exists>evs. compress_pwm_audio [1000, 1000, 1000] [1::nat, 1, 2] [5::int, 5, 5] = Inr evs \<and>
     total_duration evs = 2000"
  using compress_total_duration [of "[1000, 1000, 1000]" "[1::nat, 1, 2]" "[5::int, 5, 5]"]
  by simp

subsection \<open>Expansion\<close>

text \<open>
  Claim C2, as stated: expanding every event into \<open>duration / baseDuration\<close> copies of its
  pair gives back the sequence of pairs the encoder was given. It does not: three equal
  entries come back as two.
\<close>

theorem compress_expand_counterexample:
  "compress_pwm_audio [1000, 1000, 1000] [4::nat, 4, 4] [9::int, 9, 9] = Inr [(2000, 4, 9)]
   \<and> expand_events 1000 [(2000, 4::nat, 9::int)] \<noteq> zip [4, 4, 4] [9, 9, 9]"
  by (simp add: compress_pwm_audio_def rle_body_def expand_events_def numeral_2_eq_2)

text \<open>
  Claim C2, amended: for sequences of equal length \<open>n \<ge> 1\<close> and a base duration that is
  not zero, the expansion of the events is the sequence of pairs without its last entry
  (in \<open>main\<close>, where \<open>N + 1\<close> entries are passed, the pairs of the \<open>N\<close> windows); and with
  two entries or more and a positive base duration the first event has a positive duration.
\<close>

theorem compress_expand:
  assumes "duration \<noteq> []" "length frequency = length duration"
    "length modules = length duration" "hd duration \<noteq> 0"
  shows "\<exists>evs. compress_pwm_audio duration frequency modules = Inr evs \<and>
     expand_events (hd duration) evs = butlast (zip frequency modules) \<and>
     (2 \<le> length duration \<and> 0 < hd duration \<longrightarrow> evs \<noteq> [] \<and> 0 < fst (hd evs))"
proof -
  have le: "length duration \<le> length frequency" "length duration \<le> length modules"
    using assms(2,3) by simp_all
  from compress_expand_take [OF assms(1) le assms(4)] obtain evs where
    evs: "compress_pwm_audio duration frequency modules = Inr evs"
      "expand_events (hd duration) evs = take (length duration - 1) (zip frequency modules)"
    by blast
  have "take (length duration - 1) (zip frequency modules) = butlast (zip frequency modules)"
    using assms(2,3) by (simp add: butlast_conv_take)
  moreover have "evs \<noteq> [] \<and> 0 < fst (hd evs)" if "2 \<le> length duration" "0 < hd duration"
    using compress_first_positive [OF that(1) le that(2)] evs(1) by simp
  ultimately show ?thesis using evs by auto
qed

theorem compress_expand_witness:
  "\<exists>evs. compress_pwm_audio [1000, 1000, 1000, 1000] [1::nat, 1, 2, 3] [5::int, 5, 5, 5] = Inr evs \<and>
     expand_events 1000 evs = [(1, 5), (1, 5), (2, 5)] \<and> evs \<noteq> [] \<and> 0 < fst (hd evs)"
  using compress_expand [of "[1000, 1000, 1000, 1000]" "[1::nat, 1, 2, 3]" "[5::int, 5, 5, 5]"]
  by simp

subsection \<open>The trailing event\<close>

text \<open>
  Claim C10: when the sequences have two entries or more and the pair of the last entry
  differs from the pair before it, the encoder returns, and the last event it emits has
  duration \<open>0\<close> and carries the pair of the last entry.
\<close>

theorem compress_last_event_zero:
  assumes n: "2 \<le> length frequency" and ld: "length duration = length frequency"
    and lm: "length modules = length frequency"
    and diff: "frequency ! (length frequency - 1) \<noteq> frequency ! (length frequency - 2)
       \<or> modules ! (length frequency - 1) \<noteq> modules ! (length frequency - 2)"
  shows "\<exists>evs. compress_pwm_audio duration frequency modules = Inr evs \<and> evs \<noteq> [] \<and>
     last evs = (0, last frequency, last modules)"
proof -
  have d: "duration \<noteq> []" "length duration \<le> length frequency"
    "length duration \<le> length modules" using n ld lm by auto
  from compress_pwm_audio_state [OF d] obtain s where
    inv: "rle_inv (hd duration) frequency modules (length duration) s" and
    res: "compress_pwm_audio duration frequency modules =
       Inr (zip (new_durations s) (zip (new_frequencies s) (new_modules s))
            @ [(hd duration * compressed_chunks s, last_freq s, last_module s)])" by blast
  have "compressed_chunks s = 0"
    using inv n diff ld unfolding rle_inv_def by metis
  moreover have "last_freq s = frequency ! (length frequency - 1)"
    "last_module s = modules ! (length frequency - 1)"
    using inv ld unfolding rle_inv_def by metis+
  moreover have "frequency \<noteq> []" "modules \<noteq> []" using n lm by auto
  then have "frequency ! (length frequency - 1) = last frequency"
    "modules ! (length frequency - 1) = last modules"
    using lm by (simp_all add: last_conv_nth)
  ultimately show ?thesis using res by simp
qed

theorem compress_last_event_zero_witness:
  "\<exists>evs. compress_pwm_audio [1000, 1000, 1000] [1::nat, 1, 2] [5::int, 5, 7] = Inr evs \<and>
     evs \<noteq> [] \<and> last evs = (0, 2, 7)"
  using compress_last_event_zero [of "[1::nat, 1, 2]" "[1000, 1000, 1000]" "[5::int, 5, 7]"]
  by (simp add: numeral_3_eq_3)


section \<open>Properties of the channel merge\<close>

lemma amax_axis0_perm:
  assumes "samples \<noteq> []" "\<forall>c \<in> set samples. length c = length (hd samples)"
    "mset samples' = mset samples"
  shows "amax_axis0 samples' = amax_axis0 samples \<and> length (hd samples') = length (hd samples)
    \<and> samples' \<noteq> []"
proof -
  have st: "set samples' = set samples" using assms(3) by (rule mset_eq_setD)
  have ne: "samples' \<noteq> []" using assms(1,3) by auto
  then have "hd samples' \<in> set samples" using st by (metis hd_in_set)
  then have len: "length (hd samples') = length (hd samples)" using assms(2) by blast
  show ?thesis using st len ne by (simp add: amax_axis0_def)
qed

text \<open>
  Claim C9: for a waveform with one channel or more, all of one length, the merged signal
  is the same for every order of the channels (two lists of channels with the same
  multiset); it has the length of a channel, its value at every index is the maximum over
  the channels at that index, clamped below at zero, and so is never negative.
\<close>

theorem merge_channels_commutative:
  assumes "samples \<noteq> []" "\<forall>c \<in> set samples. length c = length (hd samples)"
    "mset samples' = mset samples"
  shows "merge_channels samples' = merge_channels samples \<and>
    (\<exists>sig. merge_channels samples = Inr sig \<and> length sig = length (hd samples) \<and>
       (\<forall>i < length sig. sig ! i = max (Max ((\<lambda>c. c ! i) ` set samples)) 0 \<and> 0 \<le> sig ! i))"
proof -
  from amax_axis0_perm [OF assms] have
    a: "amax_axis0 samples' = amax_axis0 samples" "length (hd samples') = length (hd samples)"
      "samples' \<noteq> []" by simp_all
  have eq: "merge_channels samples' = merge_channels samples"
    using a assms(1) by (simp add: merge_channels_def)
  let ?sig = "map2 max (amax_axis0 samples) (replicate (length (hd samples)) 0)"
  have r: "merge_channels samples = Inr ?sig" using assms(1) by (simp add: merge_channels_def)
  have l: "length ?sig = length (hd samples)" by (simp add: amax_axis0_def)
  have "?sig ! i = max (Max ((\<lambda>c. c ! i) ` set samples)) 0 \<and> 0 \<le> ?sig ! i" if "i < length ?sig" for i
    using that by (simp add: amax_axis0_def)
  then show ?thesis using eq r l by blast
qed

theorem merge_channels_commutative_witness:
  "merge_channels [[- 1, 3], [2, - 5]] = merge_channels [[2, - 5], [- 1, 3]] \<and>
   (\<exists>sig. merge_channels [[2, - 5], [- 1, 3]] = Inr sig \<and> length sig = 2 \<and>
      sig ! 1 = 3 \<and> 0 \<le> sig ! 0)"
proof -
  have h1: "[[2, - 5], [- 1, 3 :: real]] \<noteq> []" by simp
  have h2: "\<forall>c \<in> set [[2, - 5], [- 1, 3 :: real]]. length c = length (hd [[2, - 5], [- 1, 3 :: real]])"
    by simp
  have h3: "mset [[- 1, 3], [2, - 5 :: real]] = mset [[2, - 5], [- 1, 3]]" by simp
  from merge_channels_commutative [OF h1 h2 h3] show ?thesis by auto
qed

section \<open>Properties of the analysis stage\<close>









subsection \<open>Evaluation on two small waveforms\<close>

lemma profile_values:
  "playback_sampling_rate ATmega328P = 10000"
  "pwm_duty_cycle_max_value ATmega328P = 254"
  "length (available_freqs ATmega328P) = 6"
  "default_duration_of ATmega328P = 1000"
  by (simp_all add: ATmega328P_def default_duration_of_def astype_int16_def)


lemma main_analysis_half:
  "main_analysis ATmega328P [[1 / 2], [1 / 2]] 10000 uf um
     = Inr ([1000, 1000], [0, uf], [1 / 2, um])"
proof -
  have mg: "merge_channels [[1 / 2], [1 / 2]] = Inr [1 / 2]"
    by (simp add: merge_channels_def amax_axis0_def)
  have n: "resampled_data_size ATmega328P [[1 / 2], [1 / 2]] 10000 = 1"
    by (simp add: resampled_data_size_def profile_values py_round_def)
  have sp: "array_split [1 / 2 :: real] 1 = Inr [[1 / 2]]"
    by (simp add: array_split_def section_sizes_def)
  have ft: "fft [1 / 2] = Inr [1 / 2]" by (simp add: fft_def)
  have fq: "fftfreq (py_round 1) (1 / 10000) = Inr [0]"
    by (simp add: py_round_def fftfreq_def upto.simps)
  have gd: "get_dominant_freq_and_module [1 / 2] 10000 1 = Inr (0, 1 / 2)"
    by (simp add: get_dominant_freq_and_module_def ft fq argmax_def)
  show ?thesis
    by (simp add: main_analysis_def mg n sp profile_values gd numeral_2_eq_2)
qed

lemma geomspace_ones: "geomspace 1 1 6 = Inr [1, 1, 1, 1, 1, 1]"
  by (simp add: geomspace_def linspace_def upt_rec)

lemma quantize_zero_one: "quantize_frequencies ATmega328P [0, 1] = Inr [5, 0]"
  by (simp add: quantize_frequencies_def profile_values geomspace_ones digitize_def
      monotonicity_def searchsorted_def)

lemma normalize_half_zero:
  "normalize_modules ATmega328P False [1 / 2, 0] = Inr [254, 0]"
  "normalize_modules ATmega328P True [1 / 2, 0] = Inr [255, 0]"
  "normalize_modules ATmega328P False [1 / 2, 1 / 2] = Inr [254, 254]"
  by (simp_all add: normalize_modules_def profile_values interp_def astype_int16_def
      digitize_def monotonicity_def searchsorted_def)




section \<open>Properties of the frequency quantizer\<close>








text \<open>
  Claim C6: a sequence of dominant frequencies that are all the same is to be quantized
  into one bucket, without an error. The quantizer has no such case. With the six
  frequencies of the ATmega328P, every constant sequence of a value \<open>c \<ge> 0\<close> makes it raise
  \<open>ValueError\<close>: for \<open>c = 0\<close> in \<open>np.geomspace(1, 0, 6)\<close>, whose stop is zero; for \<open>c > 0\<close> in
  \<open>np.digitize\<close>, since the edges from \<open>c + 1\<close> down to \<open>c\<close> with the first one set to \<open>0\<close>
  are neither increasing nor decreasing.
\<close>

lemma linspace_6:
  "linspace a b 6 = [a, a + (b - a) / 5, a + 2 * ((b - a) / 5), a + 3 * ((b - a) / 5),
     a + 4 * ((b - a) / 5), a + 5 * ((b - a) / 5)]"
  by (simp add: linspace_def upt_rec)

theorem quantize_frequencies_constant_raises:
  assumes ne: "frequencies \<noteq> []" and const: "\<forall>f \<in> set frequencies. f = c" and c: "0 \<le> c"
  shows "quantize_frequencies ATmega328P frequencies = Inl ValueError"
proof -
  have st: "set frequencies = {c}" using ne const by (cases frequencies) auto
  have mm: "Min (set frequencies) = c" "Max (set frequencies) = c" using st by simp_all
  have K: "length (available_freqs ATmega328P) = 6" by (simp add: ATmega328P_def)
  show ?thesis
  proof (cases "c = 0")
    case True
    then show ?thesis using ne by (simp add: quantize_frequencies_def mm geomspace_def)
  next
    case False
    then have pos: "0 < c" using c by simp
    let ?a = "log 10 (c + 1)" and ?b = "log 10 c"
    let ?d = "(?b - ?a) / 5"
    have d: "?d < 0" using pos by simp
    have g: "geomspace (c + 1) c 6 = Inr (map (\<lambda>y. 10 powr y) (linspace ?a ?b 6))"
      using pos by (simp add: geomspace_def)
    let ?B = "(map (\<lambda>y. 10 powr y) (linspace ?a ?b 6))[0 := 0]"
    have B: "?B = [0, 10 powr (?a + ?d), 10 powr (?a + 2 * ?d), 10 powr (?a + 3 * ?d),
        10 powr (?a + 4 * ?d), 10 powr (?a + 5 * ?d)]"
      by (simp only: linspace_6) simp
    have p1: "0 < 10 powr (?a + ?d)" by simp
    have p12: "10 powr (?a + 2 * ?d) < 10 powr (?a + ?d)" using d by simp
    have n1: "\<not> sorted (rev ?B)" unfolding B using p1 by (simp add: sorted_append)
    have n2: "\<not> sorted ?B"
    proof
      assume "sorted ?B"
      then have "10 powr (?a + ?d) \<le> 10 powr (?a + 2 * ?d)" unfolding B sorted2 by blast
      with p12 show False by linarith
    qed
    have "monotonicity (rev ?B) = 0" using n1 n2 by (simp add: monotonicity_def)
    then have "digitize frequencies (rev ?B) False = Inl ValueError"
      by (simp add: digitize_def)
    then show ?thesis
      using ne by (simp add: quantize_frequencies_def mm K g linspace_6)
  qed
qed

theorem quantize_frequencies_constant_raises_witness:
  "quantize_frequencies ATmega328P [0, 0, 0] = Inl ValueError \<and>
   quantize_frequencies ATmega328P [11025, 11025] = Inl ValueError"
  using quantize_frequencies_constant_raises [of "[0, 0, 0]" 0]
    quantize_frequencies_constant_raises [of "[11025, 11025]" 11025]
  by simp

section \<open>Properties of the loudness normalizer and of the whole pipeline\<close>

text \<open>
  What the normalizer returns for the ATmega328P: one level per entry; without
  \<open>flatten_volume\<close> every level lies in \<open>[0, 254]\<close>, with it every level is \<open>0\<close> or \<open>255\<close>.
\<close>

lemma interp_range:
  assumes "0 \<le> y1"
  shows "0 \<le> interp x (0, x1) (0, y1) \<and> interp x (0, x1) (0, y1) \<le> y1"
proof -
  have "0 \<le> y1 / x1 * x \<and> y1 / x1 * x \<le> y1" if "0 < x" "x < x1"
  proof -
    have "0 < x1" using that by simp
    then have q: "0 \<le> x / x1" "x / x1 \<le> 1" using that by simp_all
    have "0 \<le> y1 * (x / x1)" by (rule mult_nonneg_nonneg [OF assms q(1)])
    moreover have "y1 * (x / x1) \<le> y1 * 1" by (rule mult_left_mono [OF q(2) assms])
    moreover have "y1 / x1 * x = y1 * (x / x1)" by simp
    ultimately show ?thesis by (simp only: mult_1_right)
  qed
  then show ?thesis using assms by (auto simp: interp_def)
qed

lemma astype_int16_range:
  assumes "0 \<le> v" "v \<le> 254"
  shows "0 \<le> astype_int16 v \<and> astype_int16 v \<le> 254"
proof -
  have "0 \<le> \<lfloor>v\<rfloor>" "\<lfloor>v\<rfloor> \<le> 254" using assms by (simp_all add: floor_le_iff)
  then show ?thesis using assms(1) by (simp add: astype_int16_def)
qed

lemma normalize_modules_levels:
  assumes "normalize_modules ATmega328P flatten_volume modules = Inr levels"
  shows "length levels = length modules \<and>
    (\<forall>l \<in> set levels. if flatten_volume then l = 0 \<or> l = 255 else 0 \<le> l \<and> l \<le> 254)"
proof -
  let ?cs = "map (\<lambda>v. ln (v + 1)) modules"
  let ?g = "\<lambda>c. astype_int16 (interp c (0, Max (set ?cs)) (0, 254))"
  have pwm: "pwm_duty_cycle_max_value ATmega328P = 254" by (simp add: ATmega328P_def)
  have lv: "levels = (if flatten_volume
       then map (\<lambda>k. int k * 255) (map (\<lambda>v. searchsorted [0, 255] v Left) (map ?g ?cs))
       else map ?g ?cs)"
    using assms
    by (simp add: normalize_modules_def pwm digitize_def monotonicity_def Let_def
        split: if_splits)
  have g: "0 \<le> ?g c \<and> ?g c \<le> 254" for c
    using interp_range [of 254 c "Max (set ?cs)"] by (intro astype_int16_range) simp_all
  have f: "int (searchsorted [0, 255] v Left) * 255 = 0 \<or> int (searchsorted [0, 255] v Left) * 255 = 255"
    if "0 \<le> v" "v \<le> 254" for v :: int
    using that by (simp add: searchsorted_def)
  show ?thesis
  proof (cases flatten_volume)
    case True
    then show ?thesis using lv g f by auto
  next
    case False
    then show ?thesis using lv g by auto
  qed
qed


text \<open>
  Claim C3: every loudness level lies in \<open>[0, 254]\<close>, with and without \<open>flatten_volume\<close>.
  With \<open>flatten_volume\<close>, a window of magnitude \<open>1/2\<close> comes out at level \<open>255\<close>, above
  \<open>pwm_duty_cycle_max_value\<close>.
\<close>

theorem main_flatten_level_255:
  "main ATmega328P True [[1 / 2], [1 / 2]] 10000 1 0 = Inr [(1000, 5, 255), (0, 0, 0)]
   \<and> pwm_duty_cycle_max_value ATmega328P < 255"
  by (simp add: main_def main_analysis_half quantize_zero_one normalize_half_zero
      compress_pwm_audio_def rle_body_def profile_values)

text \<open>
  Claim C7: two runs on the same waveform, profile and flag give the same events. The
  events depend on the slot that \<open>main\<close> never writes: the same waveform gives two
  different event lists for two contents of that slot.
\<close>

theorem main_depends_on_unwritten_slot:
  "main ATmega328P False [[1 / 2], [1 / 2]] 10000 1 0 = Inr [(1000, 5, 254), (0, 0, 0)]
   \<and> main ATmega328P False [[1 / 2], [1 / 2]] 10000 1 (1 / 2)
       = Inr [(1000, 5, 254), (0, 0, 254)]"
  by (simp add: main_def main_analysis_half quantize_zero_one normalize_half_zero
      compress_pwm_audio_def rle_body_def profile_values)

subsection \<open>Silent input\<close>



















end
